theory Spec2Isabelle
  imports Main
begin

section \<open>JavaScript strings\<close>

text \<open>
  A JavaScript string is a sequence of UTF-16 code units; the regular expressions of the
  client (none has the \<^verbatim>\<open>u\<close> flag) and \<^verbatim>\<open>trim\<close>, \<^verbatim>\<open>split\<close>,
  \<^verbatim>\<open>startsWith\<close> all work on code units. A code unit is a natural number here, and
  \<open>js ''...''\<close> writes an ASCII literal.
\<close>

type_synonym jsstring = "nat list"

abbreviation (input) js :: "string \<Rightarrow> jsstring" where
  "js s \<equiv> map of_char s"

definition star :: nat where "star = 42"
definition hash :: nat where "hash = 35"
definition dash :: nat where "dash = 45"
definition colon :: nat where "colon = 58"
definition amp :: nat where "amp = 38"
definition dot :: nat where "dot = 46"
definition rparen :: nat where "rparen = 41"
definition newline :: nat where "newline = 10"
definition bullet :: nat where "bullet = 8226"  \<comment> \<open>U+2022\<close>

text \<open>LineTerminator of ECMAScript: LF, CR, U+2028, U+2029. The regex \<^verbatim>\<open>.\<close> is any other code unit.\<close>

definition isLineTerminator :: "nat \<Rightarrow> bool" where
  "isLineTerminator c = (c = 10 \<or> c = 13 \<or> c = 8232 \<or> c = 8233)"

text \<open>
  What \<^verbatim>\<open>\s\<close> matches and \<^verbatim>\<open>trim\<close> strips: WhiteSpace (TAB, VT, FF, SP, NBSP,
  U+FEFF and the space separators U+1680, U+2000..U+200A, U+202F, U+205F, U+3000) and
  LineTerminator.
\<close>

definition isSpace :: "nat \<Rightarrow> bool" where
  "isSpace c = (c = 9 \<or> c = 11 \<or> c = 12 \<or> c = 32 \<or> c = 160 \<or> c = 65279 \<or> c = 5760
     \<or> (8192 \<le> c \<and> c \<le> 8202) \<or> c = 8239 \<or> c = 8287 \<or> c = 12288 \<or> isLineTerminator c)"

definition isDigit :: "nat \<Rightarrow> bool" where  \<comment> \<open>\<^verbatim>\<open>\d\<close>\<close>
  "isDigit c = (48 \<le> c \<and> c \<le> 57)"

definition isUpper :: "nat \<Rightarrow> bool" where  \<comment> \<open>\<^verbatim>\<open>[A-Z]\<close>\<close>
  "isUpper c = (65 \<le> c \<and> c \<le> 90)"

definition isLower :: "nat \<Rightarrow> bool" where  \<comment> \<open>\<^verbatim>\<open>[a-z]\<close>\<close>
  "isLower c = (97 \<le> c \<and> c \<le> 122)"

definition trim :: "jsstring \<Rightarrow> jsstring" where
  "trim s = rev (dropWhile isSpace (rev (dropWhile isSpace s)))"

text \<open>\<^verbatim>\<open>s.split(d)\<close> for a one-unit separator: always at least one piece.\<close>

fun split :: "nat \<Rightarrow> jsstring \<Rightarrow> jsstring list" where
  "split d [] = [[]]"
| "split d (c # cs) =
     (if c = d then [] # split d cs
      else (case split d cs of [] \<Rightarrow> [[c]] | l # ls \<Rightarrow> (c # l) # ls))"

text \<open>\<^verbatim>\<open>s.replace(/\*+/g, '')\<close>: every run of asterisks is deleted.\<close>

definition stripStars :: "jsstring \<Rightarrow> jsstring" where
  "stripStars s = filter (\<lambda>c. c \<noteq> star) s"


section \<open>Session controller (screen-based client)\<close>

datatype role = User | Assistant

record msg =
  role :: role
  content :: jsstring
  time :: jsstring

datatype screen_state = Upload | Chat

record app_state =
  screen :: screen_state
  message :: jsstring
  loading :: bool
  uploading :: bool
  fileName :: "jsstring option"
  fileContext :: jsstring
  messages :: "msg list"
  error :: "jsstring option"

text \<open>The error a rejected request carries: its \<^verbatim>\<open>code\<close> and whether it has a \<^verbatim>\<open>response\<close>.\<close>

record axios_error =
  err_code :: "jsstring option"
  err_has_response :: bool

definition getErrorMessage :: "axios_error \<Rightarrow> jsstring" where
  "getErrorMessage err =
     (if err_code err = Some (js ''ECONNABORTED'')
      then js ''Server took too long to respond. It may be starting up '' @ [8212]
             @ js '' please try again.''
      else if \<not> err_has_response err
      then js ''Cannot reach the server. Please check your connection and try again.''
      else js ''Something went wrong. Please try again.'')"

text \<open>The body of an upload response; an absent field is \<open>None\<close>.\<close>

record upload_data =
  resp_error :: "jsstring option"
  resp_filename :: "jsstring option"
  resp_content :: "jsstring option"

datatype upload_outcome = UploadResponse upload_data | UploadRejected axios_error

datatype chat_outcome = ChatResponse jsstring | ChatRejected axios_error

text \<open>JavaScript truthiness of a string-valued field: present and not empty.\<close>

fun truthy :: "jsstring option \<Rightarrow> bool" where
  "truthy None = False"
| "truthy (Some s) = (s \<noteq> [])"

text \<open>
  \<^verbatim>\<open>handleUpload\<close>: the first argument is the file of the change event (\<open>None\<close> when the
  picker was cancelled), the second what the upload request settles with.
\<close>

definition handleUpload :: "'f option \<Rightarrow> upload_outcome \<Rightarrow> app_state \<Rightarrow> app_state" where
  "handleUpload file outcome st =
     (case file of
        None \<Rightarrow> st
      | Some f \<Rightarrow>
          (let st1 = st\<lparr>uploading := True, error := None\<rparr>;
               st2 = (case outcome of
                        UploadResponse d \<Rightarrow>
                          (if truthy (resp_error d) then st1\<lparr>error := resp_error d\<rparr>
                           else st1\<lparr>fileName := resp_filename d,
                                    fileContext := (case resp_content d of None \<Rightarrow> [] | Some c \<Rightarrow> c),
                                    screen := Chat\<rparr>)
                      | UploadRejected err \<Rightarrow> st1\<lparr>error := Some (getErrorMessage err)\<rparr>)
           in st2\<lparr>uploading := False\<rparr>))"

record chat_payload =
  payload_message :: jsstring
  conversation_history :: "(role \<times> jsstring) list"
  file_context :: "jsstring option"

text \<open>
  \<^verbatim>\<open>sendMessage\<close> up to the \<^verbatim>\<open>await\<close>: the new state and the request issued, if any.
  \<open>now\<close> is the clock reading put into the message.
\<close>

definition sendMessage_begin :: "jsstring \<Rightarrow> jsstring \<Rightarrow> app_state \<Rightarrow> app_state \<times> chat_payload option" where
  "sendMessage_begin text now st =
     (if trim text = [] \<or> loading st then (st, None)
      else
        (let userMessage = \<lparr>role = User, content = text, time = now\<rparr>;
             payload = \<lparr>payload_message = text,
                        conversation_history = map (\<lambda>m. (role m, content m)) (messages st),
                        file_context = (if fileContext st \<noteq> [] then Some (fileContext st) else None)\<rparr>
         in (st\<lparr>messages := messages st @ [userMessage], message := [], loading := True\<rparr>,
             Some payload)))"

text \<open>\<^verbatim>\<open>sendMessage\<close> after the \<^verbatim>\<open>await\<close>: \<^verbatim>\<open>try\<close> or \<^verbatim>\<open>catch\<close>, then \<^verbatim>\<open>finally\<close>.\<close>

definition sendMessage_settle :: "chat_outcome \<Rightarrow> jsstring \<Rightarrow> app_state \<Rightarrow> app_state" where
  "sendMessage_settle outcome now st =
     (case outcome of
        ChatResponse reply \<Rightarrow>
          st\<lparr>messages := messages st @ [\<lparr>role = Assistant, content = reply, time = now\<rparr>]\<rparr>
      | ChatRejected err \<Rightarrow> st\<lparr>error := Some (getErrorMessage err)\<rparr>)\<lparr>loading := False\<rparr>"

definition sendMessage ::
  "jsstring \<Rightarrow> jsstring \<Rightarrow> chat_outcome \<Rightarrow> jsstring \<Rightarrow> app_state \<Rightarrow> app_state \<times> chat_payload option" where
  "sendMessage text now outcome later st =
     (case sendMessage_begin text now st of
        (st1, None) \<Rightarrow> (st1, None)
      | (st1, Some payload) \<Rightarrow> (sendMessage_settle outcome later st1, Some payload))"

definition handleNewChat :: "app_state \<Rightarrow> app_state" where
  "handleNewChat st =
     st\<lparr>messages := [], message := [], fileName := None, fileContext := [], error := None,
        screen := Upload\<rparr>"


section \<open>Session controller (single-screen client, App.jsx)\<close>

text \<open>
  The single-screen client has no screen state: the upload panel is shown exactly while
  the transcript is empty. Its mirror of the state in the browser's local storage is left
  out.
\<close>

record legacy_state =
  l_message :: jsstring
  l_loading :: bool
  l_fileName :: "jsstring option"
  l_fileContext :: jsstring
  l_messages :: "msg list"
  l_error :: "jsstring option"

definition hasMessages :: "legacy_state \<Rightarrow> bool" where
  "hasMessages st = (length (l_messages st) > 0)"

definition legacy_sendMessage_begin ::
  "jsstring \<Rightarrow> jsstring \<Rightarrow> legacy_state \<Rightarrow> legacy_state \<times> chat_payload option" where
  "legacy_sendMessage_begin text now st =
     (if trim text = [] then (st, None)
      else
        (let userMessage = \<lparr>role = User, content = text, time = now\<rparr>;
             payload = \<lparr>payload_message = text,
                        conversation_history = map (\<lambda>m. (role m, content m)) (l_messages st),
                        file_context = (if l_fileContext st \<noteq> [] then Some (l_fileContext st) else None)\<rparr>
         in (st\<lparr>l_messages := l_messages st @ [userMessage], l_message := [], l_loading := True\<rparr>,
             Some payload)))"

definition legacy_handleNewChat :: "legacy_state \<Rightarrow> legacy_state" where
  "legacy_handleNewChat st =
     st\<lparr>l_messages := [], l_message := [], l_fileName := None, l_fileContext := [], l_error := None\<rparr>"


section \<open>Reply formatter (screen-based client)\<close>

text \<open>
  \<^verbatim>\<open>renderMessageContent\<close> of the screen-based client turns the text of an assistant
  message into a list of elements: a heading, a line of its own, or a section block of
  lines with their CSS class. The content of a line is what \<^verbatim>\<open>renderInline\<close> returns:
  a list of plain and bold spans, or (when no span was pushed) a string.
\<close>

datatype span = Plain jsstring | Bold jsstring
datatype inline = Parts "span list" | Text jsstring
datatype line_class = MsgBullet | MsgNumbered | MsgLine
datatype element = SectionBlock "(line_class \<times> inline) list" | Heading jsstring | Line inline

text \<open>
  The regular expressions are translated one by one; each function returns the first
  capture group (the second, for the numbered line, is not read by the client).

  \<^verbatim>\<open>(.+)\<close> at the start of the input, with nothing after it in the pattern: greedy,
  at least one unit, up to the first line terminator.
\<close>

definition dotPlus :: "jsstring \<Rightarrow> jsstring option" where
  "dotPlus s =
     (let g = takeWhile (\<lambda>c. \<not> isLineTerminator c) s in if g = [] then None else Some g)"

text \<open>
  \<^verbatim>\<open>\s+(.+)\<close> at the start of the input. \<^verbatim>\<open>\s+\<close> is greedy: after one white-space
  unit it first tries to take more (the recursive call) and only when that fails lets
  \<^verbatim>\<open>(.+)\<close> start here.
\<close>

fun spacesThenDotPlus :: "jsstring \<Rightarrow> jsstring option" where
  "spacesThenDotPlus [] = None"
| "spacesThenDotPlus (c # cs) =
     (if isSpace c
      then (case spacesThenDotPlus cs of Some g \<Rightarrow> Some g | None \<Rightarrow> dotPlus cs)
      else None)"

text \<open>
  \<^verbatim>\<open>line.match(/^#{1,4}\s+(.+)/)\<close>. The unit after the hashes that \<^verbatim>\<open>#{1,4}\<close> takes
  must be white space, so it takes the whole run of leading hashes, and the run has one
  to four of them.
\<close>

definition hashMatch :: "jsstring \<Rightarrow> jsstring option" where
  "hashMatch line =
     (let k = length (takeWhile (\<lambda>c. c = hash) line)
      in if 1 \<le> k \<and> k \<le> 4 then spacesThenDotPlus (drop k line) else None)"

text \<open>
  \<^verbatim>\<open>line.match(/^\*\*(.+?)\*\*:?$/)\<close>. \<open>lazyToEnd\<close> is \<^verbatim>\<open>(.+?)\*\*:?$\<close> at the start of
  the input: the capture grows one unit at a time (never over a line terminator) until
  exactly \<^verbatim>\<open>**\<close> or \<^verbatim>\<open>**:\<close> is left.
\<close>

fun lazyToEnd :: "jsstring \<Rightarrow> jsstring option" where
  "lazyToEnd [] = None"
| "lazyToEnd (c # cs) =
     (if isLineTerminator c then None
      else if cs = [star, star] \<or> cs = [star, star, colon] then Some [c]
      else map_option ((#) c) (lazyToEnd cs))"

definition boldHeadingMatch :: "jsstring \<Rightarrow> jsstring option" where
  "boldHeadingMatch line =
     (if take 2 line = [star, star] then lazyToEnd (drop 2 line) else None)"

text \<open>
  \<^verbatim>\<open>line.match(/^([A-Z][A-Z\s&]{3,}):?$/)\<close>. The class \<^verbatim>\<open>[A-Z\s&]\<close> has no colon, so
  the greedy repetition takes the whole run and what is left must be empty or one colon.
\<close>

definition isCapsChar :: "nat \<Rightarrow> bool" where
  "isCapsChar c = (isUpper c \<or> isSpace c \<or> c = amp)"

definition capsHeadingMatch :: "jsstring \<Rightarrow> jsstring option" where
  "capsHeadingMatch line =
     (case line of
        [] \<Rightarrow> None
      | c # cs \<Rightarrow>
          (let body = takeWhile isCapsChar cs; rest = dropWhile isCapsChar cs
           in if isUpper c \<and> 3 \<le> length body \<and> (rest = [] \<or> rest = [colon])
              then Some (c # body) else None))"

text \<open>
  \<^verbatim>\<open>hashMatch?.[1] || boldHeadingMatch?.[1] || capsHeadingMatch?.[1]\<close>: the capture of the
  first expression that matches. A capture is never empty (each group needs at least one
  unit), so \<^verbatim>\<open>||\<close> never skips a match; and the branch is taken exactly when one of the
  three matches, that is when \<open>headingCapture\<close> is not \<open>None\<close>.
\<close>

definition headingCapture :: "jsstring \<Rightarrow> jsstring option" where
  "headingCapture line =
     (case hashMatch line of
        Some g \<Rightarrow> Some g
      | None \<Rightarrow> (case boldHeadingMatch line of Some g \<Rightarrow> Some g | None \<Rightarrow> capsHeadingMatch line))"

text \<open>
  \<^verbatim>\<open>remaining.match(/\*\*(.+?)\*\*/)\<close>. \<open>lazyBold\<close> is \<^verbatim>\<open>(.+?)\*\*\<close> at the start of the
  input and returns the capture and what follows the match; \<open>boldMatch\<close> tries every start
  position from the left and returns the text before the match, the capture and the text
  after the match.
\<close>

fun lazyBold :: "jsstring \<Rightarrow> (jsstring \<times> jsstring) option" where
  "lazyBold [] = None"
| "lazyBold (c # cs) =
     (if isLineTerminator c then None
      else if take 2 cs = [star, star] then Some ([c], drop 2 cs)
      else map_option (\<lambda>(g, r). (c # g, r)) (lazyBold cs))"

fun boldMatch :: "jsstring \<Rightarrow> (jsstring \<times> jsstring \<times> jsstring) option" where
  "boldMatch [] = None"
| "boldMatch (c # cs) =
     (case (if take 2 (c # cs) = [star, star] then lazyBold (drop 1 cs) else None) of
        Some (g, r) \<Rightarrow> Some ([], g, r)
      | None \<Rightarrow> map_option (\<lambda>(b, g, r). (c # b, g, r)) (boldMatch cs))"

lemma lazyBold_shorter: "lazyBold s = Some (g, r) \<Longrightarrow> length r < length s"
  by (induction s arbitrary: g r) (auto split: if_splits)

lemma boldMatch_shorter: "boldMatch s = Some (b, g, r) \<Longrightarrow> length r < length s"
proof (induction s arbitrary: b g r)
  case Nil
  then show ?case by simp
next
  case (Cons c cs)
  show ?case
  proof (cases "if take 2 (c # cs) = [star, star] then lazyBold (drop 1 cs) else None")
    case None
    with Cons.prems obtain b' where "boldMatch cs = Some (b', g, r)"
      by auto
    with Cons.IH show ?thesis by fastforce
  next
    case (Some a)
    then have "lazyBold (drop 1 cs) = Some (g, r)"
      using Cons.prems by (auto split: if_splits)
    from lazyBold_shorter [OF this] show ?thesis
      by simp
  qed
qed

text \<open>
  The \<^verbatim>\<open>while\<close> loop of \<^verbatim>\<open>renderInline\<close>: the parts pushed from \<open>remaining\<close> on. Each
  round either finds a bold match, and goes on with the strictly shorter text after it, or
  pushes the rest without its asterisks and stops.
\<close>

function renderParts :: "jsstring \<Rightarrow> span list" where
  "renderParts remaining =
     (if remaining = [] then []
      else (case boldMatch remaining of
              Some (beforeBold, g, rest) \<Rightarrow>
                (if beforeBold \<noteq> [] then [Plain beforeBold] else []) @ Bold g # renderParts rest
            | None \<Rightarrow>
                (let cleaned = stripStars remaining
                 in if cleaned \<noteq> [] then [Plain cleaned] else [])))"
  by pat_completeness auto
termination
  by (relation "measure length") (auto dest: boldMatch_shorter)

definition renderInline :: "jsstring \<Rightarrow> inline" where
  "renderInline text =
     (let parts = renderParts text in if parts \<noteq> [] then Parts parts else Text (stripStars text))"

text \<open>
  \<^verbatim>\<open>line.match(/^[\u2022\-\*]\s+(.+)/)\<close> and \<^verbatim>\<open>line.match(/^(\d+[\.\)]\s+)(.+)/)\<close>; of
  the second only whether it matches is used.
\<close>

definition bulletMatch :: "jsstring \<Rightarrow> jsstring option" where
  "bulletMatch line =
     (case line of
        [] \<Rightarrow> None
      | c # cs \<Rightarrow> if c = bullet \<or> c = dash \<or> c = star then spacesThenDotPlus cs else None)"

definition numberedMatch :: "jsstring \<Rightarrow> bool" where
  "numberedMatch line =
     (let ds = takeWhile isDigit line
      in ds \<noteq> [] \<and>
         (case dropWhile isDigit line of
            [] \<Rightarrow> False
          | c # cs \<Rightarrow> (c = dot \<or> c = rparen) \<and> spacesThenDotPlus cs \<noteq> None))"

text \<open>
  The state of the \<^verbatim>\<open>forEach\<close> over the lines is \<^verbatim>\<open>elements\<close> and \<^verbatim>\<open>sectionLines\<close>;
  \<open>renderLine\<close> is the body of the loop for one raw line.
\<close>

type_synonym render_state = "element list \<times> (line_class \<times> inline) list"

definition flushSection :: "render_state \<Rightarrow> render_state" where
  "flushSection st =
     (case st of (elements, sectionLines) \<Rightarrow>
        if length sectionLines > 0 then (elements @ [SectionBlock sectionLines], [])
        else (elements, sectionLines))"

definition renderLine :: "render_state \<Rightarrow> jsstring \<Rightarrow> render_state" where
  "renderLine st rawLine =
     (let line = trim rawLine in
      if length line = 0 then flushSection st
      else (case headingCapture line of
              Some g \<Rightarrow>
                (case flushSection st of (elements, sectionLines) \<Rightarrow>
                   (elements @ [Heading (trim (stripStars g))], sectionLines))
            | None \<Rightarrow>
                (case st of (elements, sectionLines) \<Rightarrow>
                   (case bulletMatch line of
                      Some g \<Rightarrow> (elements, sectionLines @ [(MsgBullet, renderInline g)])
                    | None \<Rightarrow>
                        if numberedMatch line
                        then (elements, sectionLines @ [(MsgNumbered, renderInline line)])
                        else if length sectionLines > 0
                        then (elements, sectionLines @ [(MsgLine, renderInline line)])
                        else (elements @ [Line (renderInline line)], sectionLines)))))"

datatype rendered = RawContent jsstring | Elements "element list"

definition renderMessageContent :: "msg \<Rightarrow> rendered" where
  "renderMessageContent m =
     (if role m \<noteq> Assistant then RawContent (content m)
      else Elements (fst (flushSection (foldl renderLine ([], []) (split newline (content m))))))"


section \<open>Reply formatter (single-screen client, App.jsx)\<close>

text \<open>
  \<^verbatim>\<open>normalizeAssistantLine\<close> applies four replacements to the trimmed line.
  \<open>unwrapDouble\<close> is \<^verbatim>\<open>replace(/\*\*(.*?)\*\*/g, '$1')\<close>: from the left, each match is
  replaced by its capture and the search goes on after the match; \<open>lazyDouble\<close> is
  \<^verbatim>\<open>(.*?)\*\*\<close> at the start of the input. \<open>unwrapSingle\<close> and \<open>lazySingle\<close> are the same
  for \<^verbatim>\<open>replace(/\*(.*?)\*/g, '$1')\<close>.
\<close>

fun lazyDouble :: "jsstring \<Rightarrow> (jsstring \<times> jsstring) option" where
  "lazyDouble [] = None"
| "lazyDouble (c # cs) =
     (if take 2 (c # cs) = [star, star] then Some ([], drop 1 cs)
      else if isLineTerminator c then None
      else map_option (\<lambda>(g, r). (c # g, r)) (lazyDouble cs))"

lemma lazyDouble_shorter: "lazyDouble s = Some (g, r) \<Longrightarrow> length r < length s"
  by (induction s arbitrary: g r) (auto split: if_splits)

function unwrapDouble :: "jsstring \<Rightarrow> jsstring" where
  "unwrapDouble [] = []"
| "unwrapDouble (c # cs) =
     (case (if take 2 (c # cs) = [star, star] then lazyDouble (drop 1 cs) else None) of
        Some (g, r) \<Rightarrow> g @ unwrapDouble r
      | None \<Rightarrow> c # unwrapDouble cs)"
  by pat_completeness auto
termination
  by (relation "measure length") (auto split: if_splits dest!: lazyDouble_shorter)

fun lazySingle :: "jsstring \<Rightarrow> (jsstring \<times> jsstring) option" where
  "lazySingle [] = None"
| "lazySingle (c # cs) =
     (if c = star then Some ([], cs)
      else if isLineTerminator c then None
      else map_option (\<lambda>(g, r). (c # g, r)) (lazySingle cs))"

lemma lazySingle_shorter: "lazySingle s = Some (g, r) \<Longrightarrow> length r < length s"
  by (induction s arbitrary: g r) (auto split: if_splits)

function unwrapSingle :: "jsstring \<Rightarrow> jsstring" where
  "unwrapSingle [] = []"
| "unwrapSingle (c # cs) =
     (case (if c = star then lazySingle cs else None) of
        Some (g, r) \<Rightarrow> g @ unwrapSingle r
      | None \<Rightarrow> c # unwrapSingle cs)"
  by pat_completeness auto
termination
  by (relation "measure length") (auto split: if_splits dest!: lazySingle_shorter)

text \<open>\<^verbatim>\<open>replace(/^\*+\s*/, '')\<close> and \<^verbatim>\<open>replace(/\*+$/g, '')\<close>.\<close>

definition stripLeadingStars :: "jsstring \<Rightarrow> jsstring" where
  "stripLeadingStars s =
     (if take 1 s = [star] then dropWhile isSpace (dropWhile (\<lambda>c. c = star) s) else s)"

definition stripTrailingStars :: "jsstring \<Rightarrow> jsstring" where
  "stripTrailingStars s = rev (dropWhile (\<lambda>c. c = star) (rev s))"

definition normalizeAssistantLine :: "jsstring \<Rightarrow> jsstring" where
  "normalizeAssistantLine line =
     stripTrailingStars (stripLeadingStars (unwrapSingle (unwrapDouble (trim line))))"

definition rawLines :: "jsstring \<Rightarrow> jsstring list" where
  "rawLines text =
     map normalizeAssistantLine (filter (\<lambda>line. length line > 0) (map trim (split newline text)))"

text \<open>
  \<^verbatim>\<open>toLowerCase\<close>: A to Z are lowered; U+212A (Kelvin sign) becomes k and U+0130 becomes
  i followed by U+0307, the only units beyond ASCII whose lower case has an ASCII letter.
  Every other unit is left as it is: its lower case has no ASCII unit, and the client only
  compares the result with ASCII phrases.
\<close>

definition toLowerCase :: "jsstring \<Rightarrow> jsstring" where
  "toLowerCase s =
     concat (map (\<lambda>c. if isUpper c then [c + 32]
                        else if c = 8490 then [107]
                        else if c = 304 then [105, 775]
                        else [c]) s)"

fun str_includes :: "jsstring \<Rightarrow> jsstring \<Rightarrow> bool" where
  "str_includes [] sub = (sub = [])"
| "str_includes (c # cs) sub = (take (length sub) (c # cs) = sub \<or> str_includes cs sub)"

definition startsWith :: "jsstring \<Rightarrow> nat \<Rightarrow> bool" where
  "startsWith s c = (take 1 s = [c])"

text \<open>The icons are written as their UTF-16 code units.\<close>

record section_def =
  def_key :: jsstring
  def_match :: jsstring
  def_icon :: jsstring

definition sectionDefs :: "section_def list" where
  "sectionDefs =
     [\<lparr>def_key = js ''understanding'', def_match = js ''understanding your results'',
       def_icon = [55357, 56522]\<rparr>,
      \<lparr>def_key = js ''action'', def_match = js ''your personalized action plan'',
       def_icon = [55356, 57263]\<rparr>,
      \<lparr>def_key = js ''monitoring'', def_match = js ''monitoring your progress'',
       def_icon = [55357, 56517]\<rparr>,
      \<lparr>def_key = js ''doctor'', def_match = js ''when to see your doctor'',
       def_icon = [9877, 65039]\<rparr>]"

definition findHeader :: "jsstring \<Rightarrow> section_def option" where
  "findHeader line = find (\<lambda>s. str_includes (toLowerCase line) (def_match s)) sectionDefs"

definition hasSlideSections :: "jsstring list \<Rightarrow> bool" where
  "hasSlideSections ls =
     list_ex (\<lambda>line. str_includes (toLowerCase line) (js ''understanding your results'')
                  \<or> str_includes (toLowerCase line) (js ''your personalized action plan'')
                  \<or> str_includes (toLowerCase line) (js ''monitoring your progress'')
                  \<or> str_includes (toLowerCase line) (js ''when to see your doctor'')) ls"

record slide_section =
  key :: jsstring
  title :: jsstring
  icon :: jsstring
  paragraphs :: "jsstring list"
  bullets :: "jsstring list"

definition isAlnum :: "nat \<Rightarrow> bool" where
  "isAlnum c = (isLower c \<or> isUpper c \<or> isDigit c)"

text \<open>
  The body of the \<^verbatim>\<open>forEach\<close> of the slide layout. \<^verbatim>\<open>current\<close> is the object pushed
  last, so a push to \<^verbatim>\<open>current.bullets\<close> or \<^verbatim>\<open>current.paragraphs\<close> changes the last
  element of \<^verbatim>\<open>sections\<close>; \<^verbatim>\<open>current\<close> is null exactly while \<^verbatim>\<open>sections\<close> is empty.
\<close>

definition slideLine :: "slide_section list \<Rightarrow> jsstring \<Rightarrow> slide_section list" where
  "slideLine sections line =
     (case findHeader line of
        Some header \<Rightarrow>
          sections @ [\<lparr>key = def_key header,
                       title = trim (dropWhile (\<lambda>c. \<not> isAlnum c) line),
                       icon = def_icon header, paragraphs = [], bullets = []\<rparr>]
      | None \<Rightarrow>
          if sections = [] then sections
          else
            (let current = last sections in
             if startsWith line bullet \<or> startsWith line dash
             then butlast sections
                    @ [current\<lparr>bullets := bullets current @ [dropWhile isSpace (drop 1 line)]\<rparr>]
             else butlast sections @ [current\<lparr>paragraphs := paragraphs current @ [line]\<rparr>]))"

text \<open>\<^verbatim>\<open>isHeaderLine(line, index)\<close> of the generic path; \<open>ls\<close> is \<^verbatim>\<open>rawLines\<close>.\<close>

definition isHeaderLine :: "jsstring list \<Rightarrow> jsstring \<Rightarrow> nat \<Rightarrow> bool" where
  "isHeaderLine ls line index =
     (let lower = toLowerCase line in
      if startsWith line bullet \<or> startsWith line dash then False
      else if lower = js ''your results by game:'' \<or> lower = js ''what this means:''
              \<or> lower = js ''next steps:'' \<or> lower = js ''key points''
              \<or> lower = js ''common symptoms'' \<or> lower = js ''types of mci''
              \<or> lower = js ''important note''
              \<or> str_includes lower (js ''understanding your results'')
              \<or> str_includes lower (js ''your personalized action plan'')
              \<or> str_includes lower (js ''monitoring your progress'')
              \<or> str_includes lower (js ''when to see your doctor'')
      then True
      else
        (let next = (if index + 1 < length ls then ls ! (index + 1) else [])
         in length line \<le> 60 \<and> (startsWith next bullet \<or> startsWith next dash)))"

datatype legacy_rendered =
  LegacyRaw jsstring
| Slide "slide_section list"
| MsgLines "(jsstring \<times> bool) list"

definition legacy_renderMessageContent :: "msg \<Rightarrow> legacy_rendered" where
  "legacy_renderMessageContent m =
     (if role m \<noteq> Assistant then LegacyRaw (content m)
      else
        (let ls = rawLines (content m) in
         if hasSlideSections ls then Slide (foldl slideLine [] ls)
         else MsgLines (map (\<lambda>(index, line). (line, isHeaderLine ls line index))
                          (zip [0..<length ls] ls))))"


section \<open>What a formatted reply shows\<close>

text \<open>
  The entries of a list of elements, in display order: one for a heading, one for a line
  of its own, one for each line of a section block. \<open>lineEntry\<close> is the entry the loop body
  makes for one trimmed non-empty line, whatever element it puts it in (lemma
  \<open>pending_renderLine\<close> below); \<open>pending\<close> is the entries made so far, those of the open
  section block last.
\<close>

datatype entry = HeadingEntry jsstring | LineEntry line_class inline

fun element_entries :: "element \<Rightarrow> entry list" where
  "element_entries (SectionBlock sectionLines) = map (\<lambda>(cls, c). LineEntry cls c) sectionLines"
| "element_entries (Heading t) = [HeadingEntry t]"
| "element_entries (Line c) = [LineEntry MsgLine c]"

definition lineEntry :: "jsstring \<Rightarrow> entry" where
  "lineEntry line =
     (case headingCapture line of
        Some g \<Rightarrow> HeadingEntry (trim (stripStars g))
      | None \<Rightarrow>
          (case bulletMatch line of
             Some g \<Rightarrow> LineEntry MsgBullet (renderInline g)
           | None \<Rightarrow>
               if numberedMatch line then LineEntry MsgNumbered (renderInline line)
               else LineEntry MsgLine (renderInline line)))"

definition nonBlankLines :: "jsstring \<Rightarrow> jsstring list" where
  "nonBlankLines text = filter (\<lambda>line. line \<noteq> []) (map trim (split newline text))"

definition pending :: "render_state \<Rightarrow> entry list" where
  "pending st =
     concat (map element_entries (fst st)) @ map (\<lambda>(cls, c). LineEntry cls c) (snd st)"


text \<open>
  The kinds of line, and the shapes of line stated for them. \<open>claimed_boldHeading\<close> and
  \<open>claimed_capsHeading\<close> follow the specification's words (wrapped in double asterisks; an
  all-caps phrase with at least four letters); \<open>boldHeadingForm\<close> and \<open>capsHeadingForm\<close>
  are the shapes the expressions of the client accept.
\<close>

datatype line_kind = KHeading | KBullet | KNumbered | KPlain

fun entry_kind :: "entry \<Rightarrow> line_kind" where
  "entry_kind (HeadingEntry t) = KHeading"
| "entry_kind (LineEntry MsgBullet c) = KBullet"
| "entry_kind (LineEntry MsgNumbered c) = KNumbered"
| "entry_kind (LineEntry MsgLine c) = KPlain"

definition dropColon :: "jsstring \<Rightarrow> jsstring" where
  "dropColon line = (if line \<noteq> [] \<and> last line = colon then butlast line else line)"

definition hashHeadingForm :: "jsstring \<Rightarrow> bool" where
  "hashHeadingForm line =
     list_ex (\<lambda>k. take k line = replicate k hash \<and> k < length line \<and> isSpace (line ! k))
       [1, 2, 3, 4]"

definition claimed_boldHeading :: "jsstring \<Rightarrow> bool" where
  "claimed_boldHeading line =
     (let body = dropColon line
      in 5 \<le> length body \<and> take 2 body = [star, star]
         \<and> drop (length body - 2) body = [star, star])"

definition claimed_capsHeading :: "jsstring \<Rightarrow> bool" where
  "claimed_capsHeading line =
     (let body = dropColon line
      in 4 \<le> length (filter isUpper body) \<and> isUpper (hd body) \<and> list_all isCapsChar body)"

definition claimed_isHeading :: "jsstring \<Rightarrow> bool" where
  "claimed_isHeading line =
     (hashHeadingForm line \<or> claimed_boldHeading line \<or> claimed_capsHeading line)"

definition boldHeadingForm :: "jsstring \<Rightarrow> bool" where
  "boldHeadingForm line =
     (let body = dropColon line
      in 5 \<le> length body \<and> take 2 body = [star, star]
         \<and> drop (length body - 2) body = [star, star]
         \<and> list_all (\<lambda>c. \<not> isLineTerminator c) (drop 2 (take (length body - 2) body)))"

definition capsHeadingForm :: "jsstring \<Rightarrow> bool" where
  "capsHeadingForm line =
     (let body = dropColon line
      in 4 \<le> length body \<and> isUpper (hd body) \<and> list_all isCapsChar (tl body))"

definition bulletForm :: "jsstring \<Rightarrow> bool" where
  "bulletForm line =
     (1 < length line \<and> (hd line = bullet \<or> hd line = dash \<or> hd line = star)
      \<and> isSpace (line ! 1))"

definition numberedForm :: "jsstring \<Rightarrow> bool" where
  "numberedForm line =
     (let rest = dropWhile isDigit line
      in takeWhile isDigit line \<noteq> [] \<and> 1 < length rest
         \<and> (hd rest = dot \<or> hd rest = rparen) \<and> isSpace (rest ! 1))"





text \<open>
  For the slide layout. Whether a line contains a marker phrase, whether it contains any
  of the four, and the key of the first of the four phrases, in the fixed order
  understanding, action plan, monitoring, doctor, that it contains: written out from the
  four phrases, not through \<open>findHeader\<close>. The lines of a message that contain a marker,
  the section blocks of a rendered message (none on the generic path), and whether a
  marker phrase is present in a message. Three replies: the four section titles on four
  lines; the same with a closing sentence that names a marker again; and the four titles
  on three lines.
\<close>

definition containsMarker :: "jsstring \<Rightarrow> jsstring \<Rightarrow> bool" where
  "containsMarker line marker = str_includes (toLowerCase line) marker"

definition hasAnyMarker :: "jsstring \<Rightarrow> bool" where
  "hasAnyMarker line =
     (containsMarker line (js ''understanding your results'')
      \<or> containsMarker line (js ''your personalized action plan'')
      \<or> containsMarker line (js ''monitoring your progress'')
      \<or> containsMarker line (js ''when to see your doctor''))"

definition firstMarkerKey :: "jsstring \<Rightarrow> jsstring" where
  "firstMarkerKey line =
     (if containsMarker line (js ''understanding your results'') then js ''understanding''
      else if containsMarker line (js ''your personalized action plan'') then js ''action''
      else if containsMarker line (js ''monitoring your progress'') then js ''monitoring''
      else if containsMarker line (js ''when to see your doctor'') then js ''doctor''
      else [])"

definition fixedKeys :: "jsstring list" where
  "fixedKeys = [js ''understanding'', js ''action'', js ''monitoring'', js ''doctor'']"

definition markerLines :: "jsstring \<Rightarrow> jsstring list" where
  "markerLines text = filter hasAnyMarker (rawLines text)"

definition sectionBlocks :: "legacy_rendered \<Rightarrow> slide_section list" where
  "sectionBlocks r = (case r of Slide sections \<Rightarrow> sections | _ \<Rightarrow> [])"

definition markerPresent :: "jsstring \<Rightarrow> jsstring \<Rightarrow> bool" where
  "markerPresent text marker =
     list_ex (\<lambda>line. str_includes (toLowerCase line) marker) (rawLines text)"

definition fourMarkerReply :: jsstring where
  "fourMarkerReply =
     js ''Understanding Your Results'' @ [10] @ js ''Your Personalized Action Plan'' @ [10]
     @ js ''Monitoring Your Progress'' @ [10] @ js ''When to See Your Doctor''"

definition fiveMarkerReply :: jsstring where
  "fiveMarkerReply = fourMarkerReply @ [10] @ js ''Ask when to see your doctor.''"

definition threeLineReply :: jsstring where
  "threeLineReply =
     js ''Understanding Your Results'' @ [10] @ js ''Your Personalized Action Plan'' @ [10]
     @ js ''Monitoring Your Progress: When to See Your Doctor''"


section \<open>Properties of the session controller\<close>

text \<open>
  C8. Reset (\<^verbatim>\<open>handleNewChat\<close>), from any state, empties the transcript, sets the filename
  to none and the report context to the empty text, clears the pending error and returns
  to the upload screen; in the single-screen client the upload panel is shown again.
\<close>

theorem handleNewChat_resets:
  "messages (handleNewChat st) = [] \<and> fileName (handleNewChat st) = None
   \<and> fileContext (handleNewChat st) = [] \<and> error (handleNewChat st) = None
   \<and> screen (handleNewChat st) = Upload
   \<and> l_messages (legacy_handleNewChat lst) = [] \<and> l_fileName (legacy_handleNewChat lst) = None
   \<and> l_fileContext (legacy_handleNewChat lst) = [] \<and> l_error (legacy_handleNewChat lst) = None
   \<and> \<not> hasMessages (legacy_handleNewChat lst)"
  by (simp add: handleNewChat_def legacy_handleNewChat_def hasMessages_def)


text \<open>The message for a rejected request is never empty, so the toast that shows it is rendered.\<close>

lemma getErrorMessage_nonempty: "getErrorMessage err \<noteq> []"
  by (simp add: getErrorMessage_def)

text \<open>
  C5. When the chat request of a send is rejected, the transcript is the old transcript
  followed by the user message alone (no assistant message), the error is set to a
  non-empty message (it is truthy, so the notification is shown), and loading is idle
  again; loading is idle after the send whatever the request settles with.
\<close>

theorem sendMessage_failure:
  assumes "trim text \<noteq> []" and "\<not> loading st"
  shows "messages (fst (sendMessage text now (ChatRejected err) later st))
           = messages st @ [\<lparr>role = User, content = text, time = now\<rparr>]
         \<and> error (fst (sendMessage text now (ChatRejected err) later st)) = Some (getErrorMessage err)
         \<and> getErrorMessage err \<noteq> []
         \<and> truthy (error (fst (sendMessage text now (ChatRejected err) later st)))
         \<and> loading (fst (sendMessage text now outcome later st)) = False"
  using assms getErrorMessage_nonempty [of err]
  by (cases outcome) (simp_all add: sendMessage_def sendMessage_begin_def sendMessage_settle_def Let_def)

theorem sendMessage_failure_witness:
  "trim (js ''hi'') \<noteq> []
   \<and> messages (fst (sendMessage (js ''hi'') (js ''09:00'')
        (ChatRejected \<lparr>err_code = None, err_has_response = False\<rparr>) (js ''09:01'')
        \<lparr>screen = Chat, message = js ''hi'', loading = False, uploading = False, fileName = None,
         fileContext = [], messages = [], error = None\<rparr>))
       = [\<lparr>role = User, content = js ''hi'', time = js ''09:00''\<rparr>]"
proof -
  have t: "trim (js ''hi'') \<noteq> []"
    by (simp add: trim_def isSpace_def isLineTerminator_def)
  show ?thesis
    using t sendMessage_failure [OF t, of
        "\<lparr>screen = Chat, message = js ''hi'', loading = False, uploading = False, fileName = None,
          fileContext = [], messages = [], error = None\<rparr>"
        "js ''09:00''" "\<lparr>err_code = None, err_has_response = False\<rparr>" "js ''09:01''"]
    by simp
qed

text \<open>
  C6. When an upload fails, by a response whose error field is set or by a rejected
  request, the error is set to a non-empty message (it is truthy, so the notification is
  shown) and nothing else of the prior state changes: the state afterwards is the prior
  state with the error replaced and uploading off, so screen, filename, report context and
  transcript keep their values.
\<close>

theorem handleUpload_failure:
  "handleUpload (Some f) (UploadRejected err) st
     = st\<lparr>error := Some (getErrorMessage err), uploading := False\<rparr>
   \<and> getErrorMessage err \<noteq> []
   \<and> truthy (error (handleUpload (Some f) (UploadRejected err) st))
   \<and> (truthy (resp_error d) \<longrightarrow>
        handleUpload (Some f) (UploadResponse d) st = st\<lparr>error := resp_error d, uploading := False\<rparr>
        \<and> truthy (error (handleUpload (Some f) (UploadResponse d) st)))"
  using getErrorMessage_nonempty [of err]
  by (simp add: handleUpload_def Let_def)

theorem handleUpload_failure_witness:
  "truthy (Some (js ''Unsupported file type''))
   \<and> handleUpload (Some ())
        (UploadResponse \<lparr>resp_error = Some (js ''Unsupported file type''), resp_filename = None,
                          resp_content = None\<rparr>)
        \<lparr>screen = Upload, message = [], loading = False, uploading = False,
         fileName = Some (js ''old.pdf''), fileContext = js ''old report'', messages = [], error = None\<rparr>
     = \<lparr>screen = Upload, message = [], loading = False, uploading = False,
         fileName = Some (js ''old.pdf''), fileContext = js ''old report'', messages = [],
         error = Some (js ''Unsupported file type'')\<rparr>"
  using handleUpload_failure [of "()" _
      "\<lparr>screen = Upload, message = [], loading = False, uploading = False,
        fileName = Some (js ''old.pdf''), fileContext = js ''old report'', messages = [], error = None\<rparr>"
      "\<lparr>resp_error = Some (js ''Unsupported file type''), resp_filename = None, resp_content = None\<rparr>"]
  by simp

text \<open>
  C7. A send with non-blank text and no send in flight issues a request that carries the
  text, the role and content of every message of the transcript as it was before the user
  message was appended, in the transcript's order, and the report context text, or none
  when the report context is empty.
\<close>

theorem sendMessage_payload:
  assumes "trim text \<noteq> []" and "\<not> loading st"
  shows "snd (sendMessage text now outcome later st)
           = Some \<lparr>payload_message = text,
                   conversation_history = map (\<lambda>m. (role m, content m)) (messages st),
                   file_context = (if fileContext st = [] then None else Some (fileContext st))\<rparr>"
  using assms
  by (simp add: sendMessage_def sendMessage_begin_def Let_def)

theorem sendMessage_payload_witness:
  "trim (js ''why?'') \<noteq> []
   \<and> snd (sendMessage (js ''why?'') (js ''09:05'') (ChatResponse (js ''ok'')) (js ''09:06'')
        \<lparr>screen = Chat, message = js ''why?'', loading = False, uploading = False,
         fileName = Some (js ''r.txt''), fileContext = js ''score 7'',
         messages = [\<lparr>role = User, content = js ''hi'', time = js ''09:00''\<rparr>,
                     \<lparr>role = Assistant, content = js ''hello'', time = js ''09:01''\<rparr>],
         error = None\<rparr>)
     = Some \<lparr>payload_message = js ''why?'',
             conversation_history = [(User, js ''hi''), (Assistant, js ''hello'')],
             file_context = Some (js ''score 7'')\<rparr>"
proof -
  have t: "trim (js ''why?'') \<noteq> []"
    by (simp add: trim_def isSpace_def isLineTerminator_def)
  show ?thesis
    using t sendMessage_payload [OF t, of
        "\<lparr>screen = Chat, message = js ''why?'', loading = False, uploading = False,
          fileName = Some (js ''r.txt''), fileContext = js ''score 7'',
          messages = [\<lparr>role = User, content = js ''hi'', time = js ''09:00''\<rparr>,
                      \<lparr>role = Assistant, content = js ''hello'', time = js ''09:01''\<rparr>],
          error = None\<rparr>" "js ''09:05''" "ChatResponse (js ''ok'')" "js ''09:06''"]
    by simp
qed

text \<open>
  In the screen-based client a send with blank text, or while a send is in flight, does
  nothing: the state is the same and no request is issued.
\<close>

lemma sendMessage_noop:
  "trim text = [] \<or> loading st \<Longrightarrow> sendMessage text now outcome later st = (st, None)"
  by (auto simp: sendMessage_def sendMessage_begin_def)

lemma legacy_sendMessage_blank:
  "trim text = [] \<Longrightarrow> legacy_sendMessage_begin text now st = (st, None)"
  by (simp add: legacy_sendMessage_begin_def)

text \<open>
  C9. The single-screen client (App.jsx) guards \<^verbatim>\<open>sendMessage\<close> against blank text
  only: called while a send is in flight (Enter in the text area), it appends the user
  message and issues a second request.
\<close>

theorem legacy_sendMessage_in_flight:
  "legacy_sendMessage_begin (js ''again'') (js ''09:01'')
     \<lparr>l_message = js ''again'', l_loading = True, l_fileName = None, l_fileContext = [],
      l_messages = [\<lparr>role = User, content = js ''hi'', time = js ''09:00''\<rparr>], l_error = None\<rparr>
   = (\<lparr>l_message = [], l_loading = True, l_fileName = None, l_fileContext = [],
       l_messages = [\<lparr>role = User, content = js ''hi'', time = js ''09:00''\<rparr>,
                     \<lparr>role = User, content = js ''again'', time = js ''09:01''\<rparr>],
       l_error = None\<rparr>,
      Some \<lparr>payload_message = js ''again'', conversation_history = [(User, js ''hi'')],
            file_context = None\<rparr>)"
  by (simp add: legacy_sendMessage_begin_def trim_def isSpace_def isLineTerminator_def)


section \<open>Properties of the reply formatter\<close>

lemmas unit_defs = trim_def isSpace_def isLineTerminator_def isDigit_def isUpper_def isLower_def
  star_def hash_def dash_def colon_def amp_def dot_def rparen_def newline_def bullet_def

lemma replicate_small:
  "replicate 1 x = [x]" "replicate 2 x = [x, x]" "replicate 3 x = [x, x, x]"
  "replicate 4 x = [x, x, x, x]"
  by (simp_all add: numeral_2_eq_2 numeral_3_eq_3 eval_nat_numeral)

lemmas render_defs = renderMessageContent_def renderLine_def flushSection_def headingCapture_def
  hashMatch_def boldHeadingMatch_def capsHeadingMatch_def bulletMatch_def numberedMatch_def
  renderInline_def stripStars_def isCapsChar_def dotPlus_def Let_def


subsection \<open>One entry for each non-blank line\<close>

lemma pending_flushSection: "pending (flushSection st) = pending st"
  by (cases st) (simp add: pending_def flushSection_def)

lemma snd_flushSection: "snd (flushSection st) = []"
  by (cases st) (simp add: flushSection_def)

lemma entries_flushSection:
  "concat (map element_entries (fst (flushSection st))) = pending st"
  using pending_flushSection [of st] snd_flushSection [of st]
  by (simp add: pending_def)

lemma pending_renderLine:
  "pending (renderLine st rawLine)
     = pending st @ (if trim rawLine = [] then [] else [lineEntry (trim rawLine)])"
proof (cases "trim rawLine = []")
  case True
  then show ?thesis
    by (simp add: renderLine_def pending_flushSection)
next
  case False
  obtain els sls where st: "st = (els, sls)" by (cases st)
  obtain els' where fl: "flushSection st = (els', [])"
    using snd_flushSection [of st] by (cases "flushSection st") simp
  have pf: "concat (map element_entries els') = pending st"
    using entries_flushSection [of st] fl by simp
  show ?thesis
  proof (cases "headingCapture (trim rawLine)")
    case (Some g)
    with False fl pf show ?thesis
      by (simp add: renderLine_def lineEntry_def pending_def Let_def)
  next
    case None
    with False st show ?thesis
      by (simp add: renderLine_def lineEntry_def pending_def Let_def split: option.splits)
  qed
qed

lemma pending_foldl:
  "pending (foldl renderLine st ls)
     = pending st @ map lineEntry (filter (\<lambda>line. line \<noteq> []) (map trim ls))"
  by (induction ls arbitrary: st) (simp_all add: pending_renderLine)

text \<open>
  Every trimmed non-blank line of an assistant message makes exactly one entry, in the
  order of the lines, whatever element the entry is put in.
\<close>

lemma entries_of_rendered_message:
  "role m = Assistant \<Longrightarrow>
   (\<exists>els. renderMessageContent m = Elements els
      \<and> concat (map element_entries els) = map lineEntry (nonBlankLines (content m)))"
  by (simp add: renderMessageContent_def entries_flushSection pending_foldl nonBlankLines_def)
     (simp add: pending_def)

text \<open>
  C2. The text of a line is not always in its element: a bullet displays its capture, and
  the capture stops at a carriage return. A reply whose two bullets are separated by a
  carriage return is one line, and it is rendered as one bullet with the text of the first;
  the second bullet is in no output element.
\<close>

theorem bullet_text_after_cr_dropped:
  "renderMessageContent
     \<lparr>role = Assistant, content = js ''- Take vitamin D'' @ [13] @ js ''- Walk daily'', time = []\<rparr>
     = Elements [SectionBlock [(MsgBullet, Parts [Plain (js ''Take vitamin D'')])]]"
  by (simp add: render_defs unit_defs)

text \<open>
  A plain line and a numbered line display the whole line, with what follows a carriage
  return.
\<close>

lemma plain_text_after_cr_kept:
  "renderMessageContent
     \<lparr>role = Assistant, content = js ''Take vitamin D'' @ [13] @ js ''Walk daily'', time = []\<rparr>
     = Elements [Line (Parts [Plain (js ''Take vitamin D'' @ [13] @ js ''Walk daily'')])]"
  by (simp add: render_defs unit_defs)

lemma numbered_text_after_cr_kept:
  "renderMessageContent
     \<lparr>role = Assistant, content = js ''1. Take vitamin D'' @ [13] @ js ''2. Walk daily'', time = []\<rparr>
     = Elements [SectionBlock [(MsgNumbered,
         Parts [Plain (js ''1. Take vitamin D'' @ [13] @ js ''2. Walk daily'')])]]"
  by (simp add: render_defs unit_defs)


subsection \<open>The expressions on trimmed lines\<close>

lemma last_dropWhile_same: "dropWhile P xs \<noteq> [] \<Longrightarrow> last (dropWhile P xs) = last xs"
  by (induction xs) (auto split: if_splits)

lemma trim_last: "trim s \<noteq> [] \<Longrightarrow> \<not> isSpace (last (trim s))"
  unfolding trim_def
  by (metis hd_dropWhile last_rev rev_is_Nil_conv)

lemma trim_hd: "trim s \<noteq> [] \<Longrightarrow> \<not> isSpace (hd (trim s))"
proof -
  assume ne: "trim s \<noteq> []"
  let ?d = "dropWhile isSpace s"
  have "?d = [] \<Longrightarrow> trim s = []"
    unfolding trim_def by (metis dropWhile.simps(1) rev.simps(1))
  with ne have d: "?d \<noteq> []" by blast
  have "hd (trim s) = last (dropWhile isSpace (rev ?d))"
    using ne by (simp add: trim_def hd_rev)
  also have "\<dots> = last (rev ?d)"
    using ne by (simp add: trim_def last_dropWhile_same)
  also have "\<dots> = hd ?d" using d by (simp add: last_rev)
  finally show ?thesis using d hd_dropWhile by metis
qed

lemma LT_isSpace: "isLineTerminator c \<Longrightarrow> isSpace c"
  by (simp add: isSpace_def)

lemma dotPlus_visible: "s \<noteq> [] \<Longrightarrow> \<not> isSpace (hd s) \<Longrightarrow> dotPlus s = Some (takeWhile (\<lambda>c. \<not> isLineTerminator c) s)"
  by (cases s) (auto simp: dotPlus_def dest: LT_isSpace)

lemma spacesThenDotPlus_trimmed:
  "s \<noteq> [] \<Longrightarrow> \<not> isSpace (last s) \<Longrightarrow>
   spacesThenDotPlus s =
     (if isSpace (hd s) then Some (takeWhile (\<lambda>c. \<not> isLineTerminator c) (dropWhile isSpace s))
      else None)"
proof (induction s)
  case Nil
  then show ?case by simp
next
  case (Cons c cs)
  show ?case
  proof (cases "isSpace c")
    case False
    then show ?thesis by simp
  next
    case True
    with Cons.prems have ne: "cs \<noteq> []" by auto
    with Cons.prems have l: "\<not> isSpace (last cs)" by simp
    show ?thesis
    proof (cases "isSpace (hd cs)")
      case True
      with Cons.IH [OF ne l] \<open>isSpace c\<close> show ?thesis by simp
    next
      case False
      with Cons.IH [OF ne l] have "spacesThenDotPlus cs = None" by simp
      moreover have "dropWhile isSpace cs = cs" using False ne by (cases cs) auto
      ultimately show ?thesis
        using \<open>isSpace c\<close> dotPlus_visible [OF ne False] by simp
    qed
  qed
qed

lemma takeWhile_hash_replicate:
  "takeWhile (\<lambda>c. c = hash) line = replicate (length (takeWhile (\<lambda>c. c = hash) line)) hash"
  by (induction line) auto

lemma takeWhile_replicate_stop:
  "P x \<Longrightarrow> \<not> P y \<Longrightarrow> takeWhile P (replicate k x @ y # ys) = replicate k x"
  by (induction k) auto

lemma hash_run_length:
  assumes "take k line = replicate k hash" and "k < length line" and "line ! k \<noteq> hash"
  shows "length (takeWhile (\<lambda>c. c = hash) line) = k"
proof -
  have "drop k line = (line ! k) # drop (Suc k) line"
    using assms(2) by (simp add: Cons_nth_drop_Suc)
  moreover have "line = take k line @ drop k line" by simp
  ultimately have "line = replicate k hash @ (line ! k) # drop (Suc k) line"
    using assms(1) by simp
  then have "takeWhile (\<lambda>c. c = hash) line
               = takeWhile (\<lambda>c. c = hash) (replicate k hash @ (line ! k) # drop (Suc k) line)"
    by simp
  also have "\<dots> = replicate k hash"
    using assms(3) by (simp add: takeWhile_replicate_stop)
  finally show ?thesis by simp
qed

lemma hash_run_take:
  "take (length (takeWhile (\<lambda>c. c = hash) line)) line = takeWhile (\<lambda>c. c = hash) line"
  by (induction line) auto

lemma hash_run_stop:
  "length (takeWhile (\<lambda>c. c = hash) line) < length line \<Longrightarrow>
   line ! length (takeWhile (\<lambda>c. c = hash) line) \<noteq> hash"
  by (induction line) auto

lemma not_space_hash: "\<not> isSpace hash"
  by (simp add: isSpace_def isLineTerminator_def hash_def)

lemma hashHeadingForm_run:
  "hashHeadingForm line \<longleftrightarrow>
     (let k = length (takeWhile (\<lambda>c. c = hash) line)
      in 1 \<le> k \<and> k \<le> 4 \<and> k < length line \<and> isSpace (line ! k))"
proof
  assume "hashHeadingForm line"
  then have "\<exists>k \<in> set [1, 2, 3, 4]. take k line = replicate k hash \<and> k < length line
      \<and> isSpace (line ! k)"
    unfolding hashHeadingForm_def list_ex_iff .
  then obtain k where kin: "k \<in> set [1, 2, 3, 4]"
    and k: "take k line = replicate k hash" "k < length line" "isSpace (line ! k)"
    by blast
  from kin have kr: "1 \<le> k \<and> k \<le> 4" by auto
  from k(3) have "line ! k \<noteq> hash" using not_space_hash by metis
  from hash_run_length [OF k(1,2) this] k kr show
    "let k = length (takeWhile (\<lambda>c. c = hash) line)
      in 1 \<le> k \<and> k \<le> 4 \<and> k < length line \<and> isSpace (line ! k)"
    by auto
next
  let ?k = "length (takeWhile (\<lambda>c. c = hash) line)"
  assume "let k = length (takeWhile (\<lambda>c. c = hash) line)
      in 1 \<le> k \<and> k \<le> 4 \<and> k < length line \<and> isSpace (line ! k)"
  then have k: "1 \<le> ?k" "?k \<le> 4" "?k < length line" "isSpace (line ! ?k)"
    by (simp_all add: Let_def)
  have t: "take ?k line = replicate ?k hash"
    using hash_run_take [of line] takeWhile_hash_replicate [of line] by simp
  from k(1,2) have "?k \<in> set [1, 2, 3, 4]" by auto
  with t k(3,4) show "hashHeadingForm line"
    unfolding hashHeadingForm_def list_ex_iff by blast
qed

lemma last_drop_same: "k < length xs \<Longrightarrow> last (drop k xs) = last xs"
  by (induction xs arbitrary: k) (auto simp: drop_Cons' )

lemma hashMatch_form:
  assumes "line \<noteq> []" and "\<not> isSpace (last line)"
  shows "hashMatch line \<noteq> None \<longleftrightarrow> hashHeadingForm line"
proof -
  let ?k = "length (takeWhile (\<lambda>c. c = hash) line)"
  show ?thesis
  proof (cases "?k < length line")
    case True
    then have ne: "drop ?k line \<noteq> []" by simp
    have l: "\<not> isSpace (last (drop ?k line))"
      using assms(2) last_drop_same [OF True] by simp
    have "hd (drop ?k line) = line ! ?k" using True by (simp add: hd_drop_conv_nth)
    with spacesThenDotPlus_trimmed [OF ne l] True show ?thesis
      by (auto simp: hashMatch_def hashHeadingForm_run Let_def)
  next
    case False
    then have "drop ?k line = []" by simp
    with False show ?thesis
      by (simp add: hashMatch_def hashHeadingForm_run Let_def)
  qed
qed

lemma lazyToEnd_iff:
  "lazyToEnd s = Some g \<longleftrightarrow>
     g \<noteq> [] \<and> list_all (\<lambda>c. \<not> isLineTerminator c) g
     \<and> (s = g @ [star, star] \<or> s = g @ [star, star, colon])"
proof (induction s arbitrary: g)
  case Nil
  then show ?case by simp
next
  case (Cons c cs)
  show ?case
  proof (cases "isLineTerminator c")
    case True
    then show ?thesis by (cases g) auto
  next
    case False
    show ?thesis
    proof (cases "cs = [star, star] \<or> cs = [star, star, colon]")
      case True
      with False show ?thesis
        by (cases g; cases "tl g") (auto simp: star_def colon_def)
    next
      case nt: False
      with False Cons.IH show ?thesis
        by (cases g) (auto simp: star_def colon_def)
    qed
  qed
qed

lemma boldHeadingForm_wrap:
  "boldHeadingForm line \<longleftrightarrow>
     (\<exists>g. g \<noteq> [] \<and> list_all (\<lambda>c. \<not> isLineTerminator c) g
        \<and> (line = [star, star] @ g @ [star, star] \<or> line = [star, star] @ g @ [star, star, colon]))"
proof
  assume f: "boldHeadingForm line"
  define body where "body = dropColon line"
  define n where "n = length body"
  define g where "g = drop 2 (take (n - 2) body)"
  from f have n: "5 \<le> n" and a: "take 2 body = [star, star]"
    and b: "drop (n - 2) body = [star, star]"
    and c: "list_all (\<lambda>c. \<not> isLineTerminator c) g"
    by (simp_all add: boldHeadingForm_def Let_def body_def n_def g_def)
  have "take 2 (take (n - 2) body) @ g = take (n - 2) body"
    unfolding g_def by (rule append_take_drop_id)
  moreover have "take 2 (take (n - 2) body) = take 2 body"
  proof -
    from n have "min 2 (n - 2) = 2" by arith
    then show ?thesis by simp
  qed
  ultimately have tk: "take (n - 2) body = [star, star] @ g" using a by simp
  have "take (n - 2) body @ drop (n - 2) body = body" by (rule append_take_drop_id)
  then have body: "body = [star, star] @ g @ [star, star]"
    unfolding tk b by simp
  have g: "g \<noteq> []" using n by (simp add: g_def n_def)
  have "line = body \<or> line = body @ [colon]"
    unfolding body_def by (auto simp: dropColon_def) (metis append_butlast_last_id)
  with body g c show "\<exists>g. g \<noteq> [] \<and> list_all (\<lambda>c. \<not> isLineTerminator c) g
        \<and> (line = [star, star] @ g @ [star, star] \<or> line = [star, star] @ g @ [star, star, colon])"
    by auto
next
  assume "\<exists>g. g \<noteq> [] \<and> list_all (\<lambda>c. \<not> isLineTerminator c) g
        \<and> (line = [star, star] @ g @ [star, star] \<or> line = [star, star] @ g @ [star, star, colon])"
  then obtain g where g: "g \<noteq> []" "list_all (\<lambda>c. \<not> isLineTerminator c) g"
    and l: "line = [star, star] @ g @ [star, star] \<or> line = [star, star] @ g @ [star, star, colon]"
    by blast
  have sc: "star \<noteq> colon" by (simp add: star_def colon_def)
  have "dropColon line = [star, star] @ g @ [star, star]"
    using l
  proof
    assume "line = [star, star] @ g @ [star, star]"
    then show ?thesis using sc by (simp add: dropColon_def)
  next
    assume "line = [star, star] @ g @ [star, star, colon]"
    then have "line = ([star, star] @ g @ [star, star]) @ [colon]" by simp
    then show ?thesis unfolding dropColon_def by (simp only: butlast_snoc last_snoc) simp
  qed
  with g show "boldHeadingForm line"
    by (cases g) (simp_all add: boldHeadingForm_def Let_def)
qed

lemma boldHeadingMatch_form: "boldHeadingMatch line \<noteq> None \<longleftrightarrow> boldHeadingForm line"
proof -
  have "boldHeadingMatch line \<noteq> None \<longleftrightarrow>
          (\<exists>g. take 2 line = [star, star] \<and> lazyToEnd (drop 2 line) = Some g)"
    by (auto simp: boldHeadingMatch_def)
  also have "\<dots> \<longleftrightarrow> (\<exists>g. g \<noteq> [] \<and> list_all (\<lambda>c. \<not> isLineTerminator c) g
        \<and> (line = [star, star] @ g @ [star, star] \<or> line = [star, star] @ g @ [star, star, colon]))"
  proof -
    have "\<And>t. take 2 line = [star, star] \<and> drop 2 line = t \<longleftrightarrow> line = [star, star] @ t"
      by (metis append_eq_conv_conj length_Cons list.size(3) numeral_2_eq_2)
    then show ?thesis
      unfolding lazyToEnd_iff by blast
  qed
  finally show ?thesis by (simp add: boldHeadingForm_wrap)
qed

lemma not_caps_colon: "\<not> isCapsChar colon"
  by (simp add: isCapsChar_def isUpper_def isSpace_def isLineTerminator_def colon_def amp_def)

lemma dropWhile_Nil_all: "dropWhile P xs = [] \<longleftrightarrow> list_all P xs"
  by (induction xs) auto

lemma takeWhile_all: "\<forall>x\<in>set xs. P x \<Longrightarrow> takeWhile P xs = xs"
  by (induction xs) auto

lemma dropWhile_all: "\<forall>x\<in>set xs. P x \<Longrightarrow> dropWhile P xs = []"
  by (induction xs) auto

lemma dropWhile_single:
  "\<not> P y \<Longrightarrow> dropWhile P xs = [y] \<longleftrightarrow> (\<exists>ys. xs = ys @ [y] \<and> list_all P ys)"
proof (induction xs)
  case Nil
  then show ?case by simp
next
  case (Cons x xs)
  show ?case
  proof (cases "P x")
    case True
    with Cons show ?thesis
      by (auto simp: Cons_eq_append_conv)
  next
    case False
    then show ?thesis
      by (auto simp: Cons_eq_append_conv)
  qed
qed

lemma capsHeadingMatch_form: "capsHeadingMatch line \<noteq> None \<longleftrightarrow> capsHeadingForm line"
proof (cases line)
  case Nil
  then show ?thesis by (simp add: capsHeadingMatch_def capsHeadingForm_def dropColon_def)
next
  case (Cons c cs)
  show ?thesis
  proof (cases "last line = colon")
    case False
    then have dc: "dropColon line = c # cs" using Cons by (simp add: dropColon_def)
    have "dropWhile isCapsChar cs \<noteq> [colon]"
    proof
      assume "dropWhile isCapsChar cs = [colon]"
      then obtain ys where "cs = ys @ [colon]"
        using dropWhile_single [of isCapsChar colon cs] not_caps_colon by blast
      with Cons False show False by simp
    qed
    then have nc: "dropWhile isCapsChar cs \<noteq> [colon]" .
    show ?thesis
    proof (cases "list_all isCapsChar cs")
      case True
      with Cons dc show ?thesis
        by (auto simp: capsHeadingMatch_def capsHeadingForm_def Let_def list_all_iff
            takeWhile_all dropWhile_all)
    next
      case False
      then have "dropWhile isCapsChar cs \<noteq> []"
        by (simp add: list_all_iff)
      with Cons dc False nc show ?thesis
        by (auto simp: capsHeadingMatch_def capsHeadingForm_def Let_def)
    qed
  next
    case True
    show ?thesis
    proof (cases "cs = []")
      case True
      then show ?thesis using Cons
        by (simp add: capsHeadingMatch_def capsHeadingForm_def dropColon_def Let_def)
    next
      case False
      with True Cons obtain ys where ys: "cs = ys @ [colon]"
        by (metis append_butlast_last_id last_ConsR)
      then have dc: "dropColon line = c # ys" using Cons by (simp add: dropColon_def)
      have d1: "dropWhile isCapsChar (ys @ [colon]) \<noteq> []"
        using not_caps_colon by (simp add: dropWhile_Nil_all)
      have d2: "dropWhile isCapsChar (ys @ [colon]) = [colon] \<longleftrightarrow> list_all isCapsChar ys"
        using dropWhile_single [of isCapsChar colon "ys @ [colon]"] not_caps_colon by simp
      have t: "list_all isCapsChar ys \<Longrightarrow> takeWhile isCapsChar (ys @ [colon]) = ys"
        using not_caps_colon by (induction ys) auto
      show ?thesis
      proof (cases "list_all isCapsChar ys")
        case True
        with Cons ys dc d2 t [OF True] show ?thesis
          by (auto simp: capsHeadingMatch_def capsHeadingForm_def Let_def)
      next
        case False
        with Cons ys dc d1 d2 show ?thesis
          by (auto simp: capsHeadingMatch_def capsHeadingForm_def Let_def)
      qed
    qed
  qed
qed

lemma bulletMatch_form:
  assumes "line \<noteq> []" and "\<not> isSpace (last line)"
  shows "bulletMatch line \<noteq> None \<longleftrightarrow> bulletForm line"
proof (cases line)
  case Nil
  with assms show ?thesis by simp
next
  case (Cons c cs)
  show ?thesis
  proof (cases "cs = []")
    case True
    with Cons show ?thesis by (simp add: bulletMatch_def bulletForm_def)
  next
    case False
    with assms Cons have "\<not> isSpace (last cs)" by simp
    from spacesThenDotPlus_trimmed [OF False this] Cons False show ?thesis
      by (cases cs) (auto simp: bulletMatch_def bulletForm_def)
  qed
qed

lemma numberedMatch_form:
  assumes "line \<noteq> []" and "\<not> isSpace (last line)"
  shows "numberedMatch line \<longleftrightarrow> numberedForm line"
proof (cases "dropWhile isDigit line")
  case Nil
  then show ?thesis
    by (simp add: numberedMatch_def numberedForm_def Let_def del: dropWhile_eq_Nil_conv)
next
  case (Cons c cs)
  then have l: "last (c # cs) = last line"
    using last_dropWhile_same [of isDigit line] by simp
  show ?thesis
  proof (cases "cs = []")
    case True
    with Cons show ?thesis by (simp add: numberedMatch_def numberedForm_def)
  next
    case False
    with l assms have "\<not> isSpace (last cs)" by simp
    from spacesThenDotPlus_trimmed [OF False this] Cons False show ?thesis
      by (cases cs) (auto simp: numberedMatch_def numberedForm_def Let_def)
  qed
qed

lemma kind_lineEntry:
  "entry_kind (lineEntry line) =
     (if headingCapture line \<noteq> None then KHeading
      else if bulletMatch line \<noteq> None then KBullet
      else if numberedMatch line then KNumbered else KPlain)"
  by (simp add: lineEntry_def split: option.splits)

lemma headingCapture_matches:
  "headingCapture line \<noteq> None \<longleftrightarrow>
     hashMatch line \<noteq> None \<or> boldHeadingMatch line \<noteq> None \<or> capsHeadingMatch line \<noteq> None"
  by (simp add: headingCapture_def split: option.splits)

lemma hashHeadingForm_hd: "hashHeadingForm line \<Longrightarrow> hd line = hash"
proof -
  assume "hashHeadingForm line"
  then have "\<exists>k \<in> set [1, 2, 3, 4]. take k line = replicate k hash \<and> k < length line
      \<and> isSpace (line ! k)"
    unfolding hashHeadingForm_def list_ex_iff .
  then obtain k where kin: "k \<in> set [1, 2, 3, 4]"
    and k: "take k line = replicate k hash" "k < length line"
    by blast
  from kin have "0 < k" by auto
  then have "hd (take k line) = hd line" by (cases line) (auto simp: take_Cons')
  moreover have "hd (replicate k hash) = hash" using \<open>0 < k\<close> by (cases k) auto
  ultimately show ?thesis using k(1) by simp
qed

lemma boldHeadingForm_hd: "boldHeadingForm line \<Longrightarrow> hd line = star \<and> line ! 1 = star"
  by (auto simp: boldHeadingForm_wrap)

lemma capsHeadingForm_hd: "capsHeadingForm line \<Longrightarrow> isUpper (hd line)"
proof -
  assume f: "capsHeadingForm line"
  then have n: "4 \<le> length (dropColon line)" and u: "isUpper (hd (dropColon line))"
    by (simp_all add: capsHeadingForm_def Let_def)
  have "hd (dropColon line) = hd line"
  proof (cases "line \<noteq> [] \<and> last line = colon")
    case True
    with n have "4 \<le> length (butlast line)" by (simp add: dropColon_def)
    then have "length (butlast line) \<noteq> 0" by arith
    then have "butlast line \<noteq> []" by (simp only: length_0_conv not_False_eq_True)
    then have "hd (butlast line) = hd line" by (cases line) (auto split: if_splits)
    with True show ?thesis by (simp add: dropColon_def)
  next
    case False
    then show ?thesis by (auto simp: dropColon_def)
  qed
  with u show ?thesis by simp
qed

lemma numberedForm_hd: "numberedForm line \<Longrightarrow> isDigit (hd line)"
  by (cases line) (auto simp: numberedForm_def Let_def split: if_splits)

lemma first_unit_facts:
  "\<not> isSpace star" "\<not> isUpper hash" "\<not> isUpper star" "\<not> isUpper bullet" "\<not> isUpper dash"
  "\<not> isDigit hash" "\<not> isDigit star" "\<not> isDigit bullet" "\<not> isDigit dash"
  "hash \<noteq> star" "hash \<noteq> bullet" "hash \<noteq> dash" "\<And>c. isDigit c \<Longrightarrow> \<not> isUpper c"
  by (simp_all add: isSpace_def isLineTerminator_def isUpper_def isDigit_def star_def hash_def
      bullet_def dash_def)

lemma bulletForm_not_heading:
  "bulletForm line \<Longrightarrow> \<not> hashHeadingForm line \<and> \<not> boldHeadingForm line \<and> \<not> capsHeadingForm line"
  using hashHeadingForm_hd [of line] boldHeadingForm_hd [of line] capsHeadingForm_hd [of line]
    first_unit_facts
  by (auto simp: bulletForm_def)

lemma numberedForm_not_others:
  "numberedForm line \<Longrightarrow>
     \<not> hashHeadingForm line \<and> \<not> boldHeadingForm line \<and> \<not> capsHeadingForm line
     \<and> \<not> bulletForm line"
  using hashHeadingForm_hd [of line] boldHeadingForm_hd [of line] capsHeadingForm_hd [of line]
    numberedForm_hd [of line] first_unit_facts
  by (auto simp: bulletForm_def)


subsection \<open>Classification of a line\<close>

text \<open>The kind of the entry of a trimmed non-blank line, by the shape of the line.\<close>

lemma lineEntry_kind_forms:
  assumes "line = trim rawLine" and "line \<noteq> []"
  shows "(entry_kind (lineEntry line) = KHeading
            \<longleftrightarrow> hashHeadingForm line \<or> boldHeadingForm line \<or> capsHeadingForm line)
         \<and> (entry_kind (lineEntry line) = KBullet \<longleftrightarrow> bulletForm line)
         \<and> (entry_kind (lineEntry line) = KNumbered \<longleftrightarrow> numberedForm line)
         \<and> (entry_kind (lineEntry line) = KPlain
            \<longleftrightarrow> \<not> (hashHeadingForm line \<or> boldHeadingForm line \<or> capsHeadingForm line
                   \<or> bulletForm line \<or> numberedForm line))"
proof -
  from assms have l: "\<not> isSpace (last line)" using trim_last [of rawLine] by simp
  have h: "headingCapture line \<noteq> None
             \<longleftrightarrow> hashHeadingForm line \<or> boldHeadingForm line \<or> capsHeadingForm line"
    using hashMatch_form [OF assms(2) l] boldHeadingMatch_form [of line]
      capsHeadingMatch_form [of line]
    by (simp only: headingCapture_matches)
  have b: "bulletMatch line \<noteq> None \<longleftrightarrow> bulletForm line"
    by (rule bulletMatch_form [OF assms(2) l])
  have n: "numberedMatch line \<longleftrightarrow> numberedForm line"
    by (rule numberedMatch_form [OF assms(2) l])
  show ?thesis
    unfolding kind_lineEntry h b n
    using bulletForm_not_heading [of line] numberedForm_not_others [of line]
    by auto
qed

text \<open>
  What the loop body does with a raw line whose trimmed text is not empty, by the entry of
  the trimmed line: a heading closes the open section block and stands alone, a bullet and
  a numbered line join the open section block, a plain line joins it when it is not empty
  and stands alone otherwise.
\<close>

lemma renderLine_by_entry:
  assumes "trim rawLine \<noteq> []"
  shows "renderLine (els, sls) rawLine =
     (case lineEntry (trim rawLine) of
        HeadingEntry t \<Rightarrow> (fst (flushSection (els, sls)) @ [Heading t], [])
      | LineEntry cls c \<Rightarrow>
          (case cls of
             MsgBullet \<Rightarrow> (els, sls @ [(MsgBullet, c)])
           | MsgNumbered \<Rightarrow> (els, sls @ [(MsgNumbered, c)])
           | MsgLine \<Rightarrow> if sls \<noteq> [] then (els, sls @ [(MsgLine, c)]) else (els @ [Line c], [])))"
proof (cases "headingCapture (trim rawLine)")
  case (Some g)
  obtain els' where fl: "flushSection (els, sls) = (els', [])"
    using snd_flushSection [of "(els, sls)"] by (cases "flushSection (els, sls)") simp
  with Some assms show ?thesis
    by (simp add: renderLine_def lineEntry_def Let_def)
next
  case None
  with assms show ?thesis
    by (simp add: renderLine_def lineEntry_def Let_def split: option.splits)
qed

text \<open>
  C4, as stated, fails: the message \<^verbatim>\<open>A & B\<close> is rendered as a heading although the line
  has two letters, does not begin with a hash and is not wrapped in double asterisks.
\<close>

theorem caps_heading_two_letters:
  "renderMessageContent \<lparr>role = Assistant, content = js ''A & B'', time = []\<rparr>
     = Elements [Heading (js ''A & B'')]
   \<and> \<not> claimed_isHeading (js ''A & B'')"
  by (simp add: render_defs claimed_isHeading_def hashHeadingForm_def
      claimed_boldHeading_def claimed_capsHeading_def dropColon_def replicate_small unit_defs)

text \<open>
  C4, amended. For a raw line whose trimmed text is not empty, the loop body makes a
  heading exactly when the trimmed line begins with one to four hashes followed by white
  space, or is text without a line terminator wrapped in double asterisks with an optional
  final colon, or is a capital letter followed by at least three units that are each a
  capital letter, white space or an ampersand, with an optional final colon. It makes a
  bullet exactly when the line starts with a bullet sign, a dash or an asterisk followed
  by white space, a numbered line exactly when it starts with digits, then a dot or a
  closing parenthesis, then white space, and a plain line otherwise.
\<close>

theorem line_classification:
  assumes "line = trim rawLine" and "line \<noteq> []"
  shows "((\<exists>t. renderLine (elements, sectionLines) rawLine
                = ((if sectionLines \<noteq> [] then elements @ [SectionBlock sectionLines]
                    else elements) @ [Heading t], []))
            \<longleftrightarrow> hashHeadingForm line \<or> boldHeadingForm line \<or> capsHeadingForm line)
         \<and> ((\<exists>c. renderLine (elements, sectionLines) rawLine
                = (elements, sectionLines @ [(MsgBullet, c)]))
            \<longleftrightarrow> bulletForm line)
         \<and> ((\<exists>c. renderLine (elements, sectionLines) rawLine
                = (elements, sectionLines @ [(MsgNumbered, c)]))
            \<longleftrightarrow> numberedForm line)
         \<and> ((\<exists>c. renderLine (elements, sectionLines) rawLine
                = (if sectionLines \<noteq> [] then (elements, sectionLines @ [(MsgLine, c)])
                   else (elements @ [Line c], [])))
            \<longleftrightarrow> \<not> (hashHeadingForm line \<or> boldHeadingForm line \<or> capsHeadingForm line
                   \<or> bulletForm line \<or> numberedForm line))"
proof -
  from assms have ne: "trim rawLine \<noteq> []" by simp
  note k = lineEntry_kind_forms [OF assms]
  note r = renderLine_by_entry [OF ne, of elements sectionLines]
  have fl: "sectionLines \<noteq> [] \<Longrightarrow>
      fst (flushSection (elements, sectionLines)) = elements @ [SectionBlock sectionLines]"
    by (simp add: flushSection_def)
  have fl0: "sectionLines = [] \<Longrightarrow> fst (flushSection (elements, sectionLines)) = elements"
    by (simp add: flushSection_def)
  show ?thesis
  proof (cases "lineEntry line")
    case (HeadingEntry t)
    then have "entry_kind (lineEntry line) = KHeading" by simp
    with k have f: "hashHeadingForm line \<or> boldHeadingForm line \<or> capsHeadingForm line"
      and nb: "\<not> bulletForm line" and nn: "\<not> numberedForm line"
      by auto
    from r HeadingEntry assms(1)
    have e: "renderLine (elements, sectionLines) rawLine
               = (fst (flushSection (elements, sectionLines)) @ [Heading t], [])"
      by simp
    show ?thesis
      unfolding e using f nb nn fl fl0 by (cases "sectionLines = []") auto
  next
    case (LineEntry cls c)
    show ?thesis
    proof (cases cls)
      case MsgBullet
      with LineEntry have "entry_kind (lineEntry line) = KBullet" by simp
      with k have f: "\<not> (hashHeadingForm line \<or> boldHeadingForm line \<or> capsHeadingForm line)"
        and b: "bulletForm line" and nn: "\<not> numberedForm line"
        by auto
      from r LineEntry MsgBullet assms(1)
      have e: "renderLine (elements, sectionLines) rawLine = (elements, sectionLines @ [(MsgBullet, c)])"
        by simp
      show ?thesis unfolding e using f b nn by auto
    next
      case MsgNumbered
      with LineEntry have "entry_kind (lineEntry line) = KNumbered" by simp
      with k have f: "\<not> (hashHeadingForm line \<or> boldHeadingForm line \<or> capsHeadingForm line)"
        and b: "\<not> bulletForm line" and nn: "numberedForm line"
        by auto
      from r LineEntry MsgNumbered assms(1)
      have e: "renderLine (elements, sectionLines) rawLine = (elements, sectionLines @ [(MsgNumbered, c)])"
        by simp
      show ?thesis unfolding e using f b nn by auto
    next
      case MsgLine
      with LineEntry have "entry_kind (lineEntry line) = KPlain" by simp
      with k have f: "\<not> (hashHeadingForm line \<or> boldHeadingForm line \<or> capsHeadingForm line)"
        and b: "\<not> bulletForm line" and nn: "\<not> numberedForm line"
        by auto
      from r LineEntry MsgLine assms(1)
      have e: "renderLine (elements, sectionLines) rawLine
                 = (if sectionLines \<noteq> [] then (elements, sectionLines @ [(MsgLine, c)])
                    else (elements @ [Line c], []))"
        by simp
      show ?thesis unfolding e using f b nn fl fl0 by (cases "sectionLines = []") auto
    qed
  qed
qed

theorem line_classification_witness:
  "js ''## Plan'' = trim (js '' ## Plan'') \<and> js ''## Plan'' \<noteq> []
   \<and> hashHeadingForm (js ''## Plan'')
   \<and> (\<exists>t. renderLine ([], []) (js '' ## Plan'') = ([Heading t], []))"
proof -
  have t: "js ''## Plan'' = trim (js '' ## Plan'')" by (simp add: unit_defs)
  have n: "js ''## Plan'' \<noteq> []" by simp
  have h: "hashHeadingForm (js ''## Plan'')"
    by (simp add: hashHeadingForm_def replicate_small unit_defs)
  from line_classification [OF t n, of "[]" "[]"] h
  have "\<exists>t. renderLine ([], []) (js '' ## Plan'')
          = ((if ([] :: (line_class \<times> inline) list) \<noteq> [] then [] @ [SectionBlock []] else []) @ [Heading t], [])"
    by blast
  then have "\<exists>t. renderLine ([], []) (js '' ## Plan'') = ([Heading t], [])"
    by (simp only: not_False_eq_True simp_thms if_False append_Nil)
  with t n h show ?thesis by (intro conjI)
qed


subsection \<open>Inline rendering\<close>








lemma renderInline_example:
  "renderInline (js ''Take **Omega-3** daily'')
     = Parts [Plain (js ''Take ''), Bold (js ''Omega-3''), Plain (js '' daily'')]"
  by (simp add: renderInline_def star_def isLineTerminator_def stripStars_def)

text \<open>
  A line that is nothing but \<^verbatim>\<open>***bold***\<close> is a heading, and a heading's capture
  loses its asterisks.
\<close>

lemma triple_asterisk_line_is_heading:
  "lineEntry (js ''***bold***'') = HeadingEntry (js ''bold'')"
  by (simp add: lineEntry_def headingCapture_def hashMatch_def boldHeadingMatch_def
      stripStars_def unit_defs)

text \<open>
  C3. Inside a line that is not a heading, the capture of a bold match may begin with an
  asterisk, and the capture is displayed as it is: the message
  \<^verbatim>\<open>Take ***Omega-3*** daily\<close> is rendered as one plain line whose bold span has the
  text \<^verbatim>\<open>*Omega-3\<close>.
\<close>

theorem bold_capture_keeps_asterisk:
  "renderMessageContent \<lparr>role = Assistant, content = js ''Take ***Omega-3*** daily'', time = []\<rparr>
     = Elements [Line (Parts [Plain (js ''Take ''), Bold (js ''*Omega-3''), Plain (js '' daily'')])]"
  by (simp add: renderMessageContent_def renderLine_def flushSection_def headingCapture_def
      hashMatch_def boldHeadingMatch_def capsHeadingMatch_def bulletMatch_def numberedMatch_def
      renderInline_def stripStars_def isCapsChar_def unit_defs)





subsection \<open>The slide layout\<close>

lemma findHeader_hasAnyMarker: "findHeader line \<noteq> None \<longleftrightarrow> hasAnyMarker line"
  by (simp add: findHeader_def sectionDefs_def hasAnyMarker_def containsMarker_def)

lemma findHeader_key: "findHeader line = Some header \<Longrightarrow> def_key header = firstMarkerKey line"
  by (auto simp: findHeader_def sectionDefs_def firstMarkerKey_def containsMarker_def
      split: if_splits)

lemma hasSlideSections_markerLines: "hasSlideSections (rawLines text) \<longleftrightarrow> markerLines text \<noteq> []"
  unfolding hasSlideSections_def markerLines_def list_ex_iff filter_empty_conv hasAnyMarker_def
    containsMarker_def
  by simp

lemma slideLine_keys:
  "map key (slideLine sections line)
     = map key sections @ (if hasAnyMarker line then [firstMarkerKey line] else [])"
proof (cases "findHeader line")
  case (Some header)
  with findHeader_key [OF Some] findHeader_hasAnyMarker [of line] show ?thesis
    by (simp add: slideLine_def)
next
  case None
  with findHeader_hasAnyMarker [of line] have nm: "\<not> hasAnyMarker line" by simp
  show ?thesis
  proof (cases "sections = []")
    case True
    with None nm show ?thesis by (simp add: slideLine_def)
  next
    case False
    then have "map key sections = map key (butlast sections) @ [key (last sections)]"
      by (metis append_butlast_last_id list.simps(8,9) map_append)
    with None False nm show ?thesis by (simp add: slideLine_def Let_def)
  qed
qed

lemma foldl_slideLine_keys:
  "map key (foldl slideLine sections ls)
     = map key sections @ map firstMarkerKey (filter hasAnyMarker ls)"
  by (induction ls arbitrary: sections) (simp_all add: slideLine_keys)

lemma legacy_render_keys:
  "role m = Assistant \<Longrightarrow>
   map key (sectionBlocks (legacy_renderMessageContent m))
     = map firstMarkerKey (markerLines (content m))"
  using foldl_slideLine_keys [of "[]" "rawLines (content m)"]
  by (auto simp: legacy_renderMessageContent_def Let_def sectionBlocks_def
      hasSlideSections_markerLines markerLines_def)

lemma legacy_render_count:
  "role m = Assistant \<Longrightarrow>
   length (sectionBlocks (legacy_renderMessageContent m)) = length (markerLines (content m))"
  using legacy_render_keys [of m] by (metis length_map)

lemma firstMarkerKey_fixed: "hasAnyMarker line \<Longrightarrow> firstMarkerKey line \<in> set fixedKeys"
  by (auto simp: hasAnyMarker_def firstMarkerKey_def fixedKeys_def)

lemma fixedKeys_card: "card (set fixedKeys) = 4"
proof -
  have "distinct fixedKeys" by (simp add: fixedKeys_def)
  then have "card (set fixedKeys) = length fixedKeys" by (rule distinct_card)
  then show ?thesis by (simp add: fixedKeys_def)
qed

lemma rawLines_five:
  "rawLines fiveMarkerReply
     = [js ''Understanding Your Results'', js ''Your Personalized Action Plan'',
        js ''Monitoring Your Progress'', js ''When to See Your Doctor'',
        js ''Ask when to see your doctor.'']"
  by (simp add: rawLines_def fiveMarkerReply_def fourMarkerReply_def normalizeAssistantLine_def
      stripLeadingStars_def stripTrailingStars_def unit_defs)

lemma rawLines_four:
  "rawLines fourMarkerReply
     = [js ''Understanding Your Results'', js ''Your Personalized Action Plan'',
        js ''Monitoring Your Progress'', js ''When to See Your Doctor'']"
  by (simp add: rawLines_def fourMarkerReply_def normalizeAssistantLine_def
      stripLeadingStars_def stripTrailingStars_def unit_defs)

lemma rawLines_three:
  "rawLines threeLineReply
     = [js ''Understanding Your Results'', js ''Your Personalized Action Plan'',
        js ''Monitoring Your Progress: When to See Your Doctor'']"
  by (simp add: rawLines_def threeLineReply_def normalizeAssistantLine_def
      stripLeadingStars_def stripTrailingStars_def unit_defs)

lemma title_markers:
  "containsMarker (js ''Understanding Your Results'') (js ''understanding your results'')"
  "containsMarker (js ''Your Personalized Action Plan'') (js ''your personalized action plan'')"
  "containsMarker (js ''Monitoring Your Progress: When to See Your Doctor'')
     (js ''monitoring your progress'')"
  "containsMarker (js ''Monitoring Your Progress: When to See Your Doctor'')
     (js ''when to see your doctor'')"
  by (simp_all add: containsMarker_def toLowerCase_def isUpper_def)

lemma title_keys:
  "firstMarkerKey (js ''Understanding Your Results'') = js ''understanding''"
  "firstMarkerKey (js ''Your Personalized Action Plan'') = js ''action''"
  "firstMarkerKey (js ''Monitoring Your Progress'') = js ''monitoring''"
  "firstMarkerKey (js ''When to See Your Doctor'') = js ''doctor''"
  "firstMarkerKey (js ''Ask when to see your doctor.'') = js ''doctor''"
  by (simp_all add: firstMarkerKey_def containsMarker_def toLowerCase_def isUpper_def)

lemma title_lines:
  "hasAnyMarker (js ''Understanding Your Results'')"
  "hasAnyMarker (js ''Your Personalized Action Plan'')"
  "hasAnyMarker (js ''Monitoring Your Progress'')"
  "hasAnyMarker (js ''When to See Your Doctor'')"
  "hasAnyMarker (js ''Ask when to see your doctor.'')"
  "hasAnyMarker (js ''Monitoring Your Progress: When to See Your Doctor'')"
  by (simp_all add: hasAnyMarker_def containsMarker_def toLowerCase_def isUpper_def)

lemma markerLines_three: "markerLines threeLineReply = rawLines threeLineReply"
  unfolding markerLines_def rawLines_three
  by (simp only: filter.simps title_lines if_True)

lemma markerLines_four: "markerLines fourMarkerReply = rawLines fourMarkerReply"
  unfolding markerLines_def rawLines_four
  by (simp only: filter.simps title_lines if_True)

lemma markerLines_five: "markerLines fiveMarkerReply = rawLines fiveMarkerReply"
  unfolding markerLines_def rawLines_five
  by (simp only: filter.simps title_lines if_True)

text \<open>
  C1, as stated, fails: in a reply that has the monitoring title and the doctor title on
  one line, all four markers are present and the slide layout has three section blocks.
\<close>

theorem three_sections_for_four_markers:
  "markerPresent threeLineReply (js ''understanding your results'')
   \<and> markerPresent threeLineReply (js ''your personalized action plan'')
   \<and> markerPresent threeLineReply (js ''monitoring your progress'')
   \<and> markerPresent threeLineReply (js ''when to see your doctor'')
   \<and> length (sectionBlocks (legacy_renderMessageContent
                 \<lparr>role = Assistant, content = threeLineReply, time = []\<rparr>)) = 3"
proof -
  have "length (sectionBlocks (legacy_renderMessageContent
                 \<lparr>role = Assistant, content = threeLineReply, time = []\<rparr>))
          = length (markerLines threeLineReply)"
    using legacy_render_count [of "\<lparr>role = Assistant, content = threeLineReply, time = []\<rparr>"]
    by simp
  then have "length (sectionBlocks (legacy_renderMessageContent
                 \<lparr>role = Assistant, content = threeLineReply, time = []\<rparr>)) = 3"
    by (simp add: markerLines_three rawLines_three)
  moreover have "markerPresent threeLineReply (js ''understanding your results'')"
    "markerPresent threeLineReply (js ''your personalized action plan'')"
    "markerPresent threeLineReply (js ''monitoring your progress'')"
    "markerPresent threeLineReply (js ''when to see your doctor'')"
    unfolding markerPresent_def rawLines_three list_ex_iff
    using title_markers [unfolded containsMarker_def]
    by (simp_all only: list.set_intros insert_iff list.simps(15) bex_simps simp_thms)
  ultimately show ?thesis by blast
qed

text \<open>
  A marker named again on a later line opens one more section, with a key already used.
\<close>

lemma repeated_marker_repeats_key:
  "map key (sectionBlocks (legacy_renderMessageContent
              \<lparr>role = Assistant, content = fiveMarkerReply, time = []\<rparr>))
     = [js ''understanding'', js ''action'', js ''monitoring'', js ''doctor'', js ''doctor'']"
proof -
  have "map key (sectionBlocks (legacy_renderMessageContent
              \<lparr>role = Assistant, content = fiveMarkerReply, time = []\<rparr>))
          = map firstMarkerKey (markerLines fiveMarkerReply)"
    using legacy_render_keys [of "\<lparr>role = Assistant, content = fiveMarkerReply, time = []\<rparr>"]
    by simp
  also have "\<dots> = [js ''understanding'', js ''action'', js ''monitoring'', js ''doctor'', js ''doctor'']"
    unfolding markerLines_five rawLines_five
    using title_keys by simp
  finally show ?thesis .
qed

text \<open>
  C1, amended. For an assistant message in which no two lines open a section of the same
  key, the single-screen client makes one section block for each cleaned non-blank line
  that contains a marker phrase, in the order of the lines, keyed by the first of the four
  phrases (in the order understanding, action plan, monitoring, doctor) that the line
  contains: at most four blocks, four exactly when all four keys are opened, and none,
  with the generic path taken, exactly when no line contains a marker.
\<close>

theorem one_section_per_marker_line:
  assumes "role m = Assistant"
    and "distinct (map firstMarkerKey (markerLines (content m)))"
  shows "map key (sectionBlocks (legacy_renderMessageContent m))
           = map firstMarkerKey (markerLines (content m))
         \<and> length (sectionBlocks (legacy_renderMessageContent m)) = length (markerLines (content m))
         \<and> length (sectionBlocks (legacy_renderMessageContent m)) \<le> 4
         \<and> (length (sectionBlocks (legacy_renderMessageContent m)) = 4
              \<longleftrightarrow> set (map key (sectionBlocks (legacy_renderMessageContent m))) = set fixedKeys)
         \<and> (markerLines (content m) = [] \<longleftrightarrow>
              (\<exists>out. legacy_renderMessageContent m = MsgLines out))"
proof -
  let ?ks = "map firstMarkerKey (markerLines (content m))"
  have k: "map key (sectionBlocks (legacy_renderMessageContent m)) = ?ks"
    by (rule legacy_render_keys [OF assms(1)])
  have l: "length (sectionBlocks (legacy_renderMessageContent m)) = length (markerLines (content m))"
    by (rule legacy_render_count [OF assms(1)])
  have sub: "set ?ks \<subseteq> set fixedKeys"
    using firstMarkerKey_fixed by (auto simp: markerLines_def)
  have c: "card (set ?ks) = length ?ks" using assms(2) by (rule distinct_card)
  have "card (set ?ks) \<le> card (set fixedKeys)"
    using sub by (simp add: card_mono)
  with c fixedKeys_card have le: "length (markerLines (content m)) \<le> 4" by simp
  have four: "length (markerLines (content m)) = 4 \<longleftrightarrow> set ?ks = set fixedKeys"
  proof
    assume "length (markerLines (content m)) = 4"
    with c fixedKeys_card have "card (set ?ks) = card (set fixedKeys)" by simp
    with sub show "set ?ks = set fixedKeys" by (simp add: card_subset_eq)
  next
    assume "set ?ks = set fixedKeys"
    with c fixedKeys_card show "length (markerLines (content m)) = 4" by simp
  qed
  have g: "markerLines (content m) = [] \<longleftrightarrow>
              (\<exists>out. legacy_renderMessageContent m = MsgLines out)"
    using assms(1)
    by (auto simp: legacy_renderMessageContent_def Let_def hasSlideSections_markerLines)
  from k l le four g show ?thesis by simp
qed

theorem one_section_per_marker_line_witness:
  "role \<lparr>role = Assistant, content = fourMarkerReply, time = []\<rparr> = Assistant
   \<and> distinct (map firstMarkerKey (markerLines fourMarkerReply))
   \<and> map key (sectionBlocks (legacy_renderMessageContent
                 \<lparr>role = Assistant, content = fourMarkerReply, time = []\<rparr>))
       = [js ''understanding'', js ''action'', js ''monitoring'', js ''doctor'']
   \<and> length (sectionBlocks (legacy_renderMessageContent
                 \<lparr>role = Assistant, content = fourMarkerReply, time = []\<rparr>)) = 4"
proof -
  have ks: "map firstMarkerKey (markerLines fourMarkerReply)
              = [js ''understanding'', js ''action'', js ''monitoring'', js ''doctor'']"
    unfolding markerLines_four rawLines_four
    using title_keys by simp
  have d: "distinct (map firstMarkerKey (markerLines fourMarkerReply))"
    unfolding ks by simp
  have r: "role \<lparr>role = Assistant, content = fourMarkerReply, time = []\<rparr> = Assistant" by simp
  from one_section_per_marker_line [OF r] d
  have "map key (sectionBlocks (legacy_renderMessageContent
                 \<lparr>role = Assistant, content = fourMarkerReply, time = []\<rparr>))
          = map firstMarkerKey (markerLines fourMarkerReply)"
    by simp
  then have e: "map key (sectionBlocks (legacy_renderMessageContent
                 \<lparr>role = Assistant, content = fourMarkerReply, time = []\<rparr>))
          = [js ''understanding'', js ''action'', js ''monitoring'', js ''doctor'']"
    unfolding ks .
  then have "length (map key (sectionBlocks (legacy_renderMessageContent
                 \<lparr>role = Assistant, content = fourMarkerReply, time = []\<rparr>)))
          = length [js ''understanding'', js ''action'', js ''monitoring'', js ''doctor'']"
    by (rule arg_cong)
  then have "length (sectionBlocks (legacy_renderMessageContent
                 \<lparr>role = Assistant, content = fourMarkerReply, time = []\<rparr>)) = 4"
    by simp
  with r d e show ?thesis by blast
qed

end
